theory Spec2Isabelle
  imports Main "HOL-Library.Word"
begin

section \<open>Strings, tasks and the transport layer\<close>

text \<open>
  A JavaScript string is a sequence of UTF-16 code units. The empty string is the only
  falsy string, so \<^verbatim>\<open>!s\<close> is \<open>s = []\<close>.
\<close>

type_synonym jsstring = "16 word list"

text \<open>An ASCII string literal of the source, as code units.\<close>

definition js :: "string \<Rightarrow> jsstring" where
  "js = map of_char"

text \<open>
  \<^verbatim>\<open>String.prototype.trim\<close> strips the ECMAScript WhiteSpace and LineTerminator
  code points from both ends. All of them lie in the Basic Multilingual Plane, so the
  test is on single code units.
\<close>

definition isWhiteSpace :: "16 word \<Rightarrow> bool" where
  "isWhiteSpace c \<longleftrightarrow>
     c = 0x0009 \<or> c = 0x000A \<or> c = 0x000B \<or> c = 0x000C \<or> c = 0x000D \<or>
     c = 0x0020 \<or> c = 0x00A0 \<or> c = 0x1680 \<or>
     c = 0x2000 \<or> c = 0x2001 \<or> c = 0x2002 \<or> c = 0x2003 \<or> c = 0x2004 \<or> c = 0x2005 \<or>
     c = 0x2006 \<or> c = 0x2007 \<or> c = 0x2008 \<or> c = 0x2009 \<or> c = 0x200A \<or>
     c = 0x2028 \<or> c = 0x2029 \<or> c = 0x202F \<or> c = 0x205F \<or> c = 0x3000 \<or> c = 0xFEFF"

definition trim :: "jsstring \<Rightarrow> jsstring" where
  "trim s = rev (dropWhile isWhiteSpace (rev (dropWhile isWhiteSpace s)))"

text \<open>The \<^verbatim>\<open>Task\<close> interface; \<^verbatim>\<open>description?\<close> is optional.\<close>

record task =
  task_id :: int
  task_title :: jsstring
  task_description :: "jsstring option"
  task_isCompleted :: bool
  task_createdAt :: jsstring

text \<open>
  Requests go to \<^verbatim>\<open>API_URL\<close> followed by a suffix: the collection with the text
  appended to it (\<^verbatim>\<open>`${API_URL}${...}`\<close>), or one task (\<^verbatim>\<open>`${API_URL}/${id}`\<close>).
  A request body is an object literal with some of the three fields.
\<close>

datatype url = Tasks jsstring | TaskItem int

record body =
  body_title :: "jsstring option"
  body_description :: "jsstring option"
  body_isCompleted :: "bool option"

datatype request = Get url | Post url body | Put url body | Delete url

text \<open>An awaited axios call either resolves with the response data or rejects.\<close>

datatype transport_error = NetworkError | HttpStatus nat

datatype 'a outcome = Resolved 'a | Rejected transport_error

text \<open>
  The alert titles are \<^verbatim>\<open>'Hata'\<close> (error), \<^verbatim>\<open>'Basarili'\<close> (success) and
  \<^verbatim>\<open>'Onay'\<close> (confirmation). The messages are named after what they say, one
  constructor per string literal of the screens.
\<close>

datatype alert_title = Hata | Basarili | Onay

datatype alert_message =
    AddTitleEmpty
  | AddSaved
  | AddSaveFailed
  | DetailLoadFailed
  | DetailTitleEmpty
  | DetailUpdated
  | DetailUpdateFailed
  | DetailDeleteConfirm
  | DetailDeleted
  | DetailDeleteFailed

datatype log_label = ErrorFetchingTasks | ErrorUpdatingStatus | SaveError
  | FetchDetailError | UpdateError | DeleteError

text \<open>
  A button of \<^verbatim>\<open>Alert.alert\<close>: its style and the handler bound to
  \<^verbatim>\<open>onPress\<close>, if any. The only handler bound anywhere is \<^verbatim>\<open>performDelete\<close>.
\<close>

datatype button_style = CancelStyle | DestructiveStyle

datatype handler = PerformDelete

record button =
  button_style :: button_style
  button_onPress :: "handler option"

datatype effect =
    Request request
  | Alert alert_title alert_message "button list"
  | GoBack
  | ConsoleError log_label transport_error
  | UnhandledRejection transport_error

fun isRequest :: "effect \<Rightarrow> bool" where
  "isRequest (Request r) = True"
| "isRequest e = False"

definition requests :: "effect list \<Rightarrow> nat" where
  "requests es = length (filter isRequest es)"

fun isAlert :: "effect \<Rightarrow> bool" where
  "isAlert (Alert t m bs) = True"
| "isAlert e = False"

text \<open>
  The part of an async handler that runs after its \<^verbatim>\<open>await\<close> completes either
  normally or by throwing; both carry the state and the effects so far.
  \<open>catch_block\<close> and \<open>finally_block\<close> are the clauses of a
  \<^verbatim>\<open>try\<close> statement.
\<close>

datatype 's completion =
    Normal 's "effect list"
  | Throw transport_error 's "effect list"

definition await :: "'s \<Rightarrow> 'a outcome \<Rightarrow> ('a \<Rightarrow> 's completion) \<Rightarrow> 's completion" where
  "await s r k = (case r of Resolved x \<Rightarrow> k x | Rejected e \<Rightarrow> Throw e s [])"

definition catch_block ::
  "'s completion \<Rightarrow> (transport_error \<Rightarrow> 's \<Rightarrow> 's \<times> effect list) \<Rightarrow> 's completion" where
  "catch_block c h =
     (case c of
        Normal s es \<Rightarrow> Normal s es
      | Throw e s es \<Rightarrow> (case h e s of (s', es') \<Rightarrow> Normal s' (es @ es')))"

definition finally_block :: "'s completion \<Rightarrow> ('s \<Rightarrow> 's) \<Rightarrow> 's completion" where
  "finally_block c f =
     (case c of
        Normal s es \<Rightarrow> Normal (f s) es
      | Throw e s es \<Rightarrow> Throw e (f s) es)"

fun state_of :: "'s completion \<Rightarrow> 's" where
  "state_of (Normal s es) = s"
| "state_of (Throw e s es) = s"

fun effects_of :: "'s completion \<Rightarrow> effect list" where
  "effects_of (Normal s es) = es"
| "effects_of (Throw e s es) = es"

section \<open>The creation screen\<close>

record add_state =
  add_title :: jsstring
  add_description :: jsstring
  add_loading :: bool

definition add_initial :: add_state where
  "add_initial = \<lparr>add_title = [], add_description = [], add_loading = False\<rparr>"

text \<open>
  \<^verbatim>\<open>handleSaveTask\<close> up to its \<^verbatim>\<open>await\<close>: the validation with its early return,
  \<^verbatim>\<open>setLoading(true)\<close> and the POST.
\<close>

definition handleSaveTask :: "add_state \<Rightarrow> add_state \<times> effect list" where
  "handleSaveTask s =
     (if trim (add_title s) = [] then (s, [Alert Hata AddTitleEmpty []])
      else (s\<lparr>add_loading := True\<rparr>,
            [Request (Post (Tasks [])
               \<lparr>body_title = Some (trim (add_title s)),
                body_description = Some (trim (add_description s)),
                body_isCompleted = None\<rparr>)]))"

text \<open>The rest of \<^verbatim>\<open>handleSaveTask\<close>, once the POST has settled.\<close>

definition handleSaveTask_settled :: "add_state \<Rightarrow> unit outcome \<Rightarrow> add_state completion" where
  "handleSaveTask_settled s r =
     finally_block
       (catch_block
          (await s r (\<lambda>_. Normal s [Alert Basarili AddSaved [], GoBack]))
          (\<lambda>e s'. (s', [ConsoleError SaveError e, Alert Hata AddSaveFailed []])))
       (\<lambda>s'. s'\<lparr>add_loading := False\<rparr>)"

text \<open>
  A promise that rejects with nobody catching it is an unhandled rejection; the event
  loop below records it among the effects.
\<close>

fun settle :: "'s completion \<Rightarrow> 's \<times> effect list" where
  "settle (Normal s es) = (s, es)"
| "settle (Throw e s es) = (s, es @ [UnhandledRejection e])"

text \<open>
  The screen as the user drives it. The save button has \<^verbatim>\<open>disabled={loading}\<close>,
  so a press reaches \<^verbatim>\<open>handleSaveTask\<close> only when the flag is off. \<open>aw_posting\<close>
  counts the POSTs that have been issued and have not settled; a response can only
  arrive for one of them.
\<close>

record add_world =
  aw_screen :: add_state
  aw_posting :: nat

datatype add_event =
    AddChangeTitle jsstring
  | AddChangeDescription jsstring
  | AddPressSave
  | AddPostSettled "unit outcome"
  | AddPressBack

definition add_mount :: add_world where
  "add_mount = \<lparr>aw_screen = add_initial, aw_posting = 0\<rparr>"

fun add_step :: "add_world \<Rightarrow> add_event \<Rightarrow> add_world \<times> effect list" where
  "add_step w (AddChangeTitle v) = (w\<lparr>aw_screen := (aw_screen w)\<lparr>add_title := v\<rparr>\<rparr>, [])"
| "add_step w (AddChangeDescription v) =
     (w\<lparr>aw_screen := (aw_screen w)\<lparr>add_description := v\<rparr>\<rparr>, [])"
| "add_step w AddPressSave =
     (if add_loading (aw_screen w) then (w, [])
      else (case handleSaveTask (aw_screen w) of
              (s', es) \<Rightarrow>
                (w\<lparr>aw_screen := s', aw_posting := aw_posting w + requests es\<rparr>,
                 es)))"
| "add_step w (AddPostSettled r) =
     (if aw_posting w = 0 then (w, [])
      else (case settle (handleSaveTask_settled (aw_screen w) r) of
              (s', es) \<Rightarrow> (w\<lparr>aw_screen := s', aw_posting := aw_posting w - 1\<rparr>, es)))"
| "add_step w AddPressBack = (w, [GoBack])"

fun add_run :: "add_world \<Rightarrow> add_event list \<Rightarrow> add_world \<times> effect list" where
  "add_run w [] = (w, [])"
| "add_run w (e # evs) =
     (case add_step w e of
        (w1, es1) \<Rightarrow> (case add_run w1 evs of (w2, es2) \<Rightarrow> (w2, es1 @ es2)))"

text \<open>Every state the creation screen can reach has a POST in flight exactly when
  \<^verbatim>\<open>loading\<close> is set.\<close>

definition add_inv :: "add_world \<Rightarrow> bool" where
  "add_inv w \<longleftrightarrow> aw_posting w = (if add_loading (aw_screen w) then 1 else 0)"

section \<open>The detail screen\<close>

record detail_state =
  detail_taskId :: int
  detail_title :: jsstring
  detail_description :: jsstring
  detail_isCompleted :: bool
  detail_loading :: bool
  detail_saving :: bool

text \<open>The \<^verbatim>\<open>useState\<close> defaults, with \<^verbatim>\<open>taskId\<close> from \<^verbatim>\<open>route.params\<close>.\<close>

definition detail_initial :: "int \<Rightarrow> detail_state" where
  "detail_initial i =
     \<lparr>detail_taskId = i, detail_title = [], detail_description = [],
      detail_isCompleted = False, detail_loading = True, detail_saving = False\<rparr>"

text \<open>\<^verbatim>\<open>fetchTask\<close>, called by the mount effect: up to the \<^verbatim>\<open>await\<close>, and after it.\<close>

definition fetchTask :: "detail_state \<Rightarrow> detail_state \<times> effect list" where
  "fetchTask s = (s\<lparr>detail_loading := True\<rparr>, [Request (Get (TaskItem (detail_taskId s)))])"

definition fetchTask_settled :: "detail_state \<Rightarrow> task outcome \<Rightarrow> detail_state completion" where
  "fetchTask_settled s r =
     finally_block
       (catch_block
          (await s r (\<lambda>fetchedTask.
             Normal (s\<lparr>detail_title := task_title fetchedTask,
                       detail_description :=
                         (case task_description fetchedTask of
                            None \<Rightarrow> []
                          | Some d \<Rightarrow> if d = [] then [] else d),
                       detail_isCompleted := task_isCompleted fetchedTask\<rparr>) []))
          (\<lambda>e s'. (s', [ConsoleError FetchDetailError e, Alert Hata DetailLoadFailed [], GoBack])))
       (\<lambda>s'. s'\<lparr>detail_loading := False\<rparr>)"

definition handleUpdateTask :: "detail_state \<Rightarrow> detail_state \<times> effect list" where
  "handleUpdateTask s =
     (if trim (detail_title s) = [] then (s, [Alert Hata DetailTitleEmpty []])
      else (s\<lparr>detail_saving := True\<rparr>,
            [Request (Put (TaskItem (detail_taskId s))
               \<lparr>body_title = Some (trim (detail_title s)),
                body_description = Some (trim (detail_description s)),
                body_isCompleted = Some (detail_isCompleted s)\<rparr>)]))"

definition handleUpdateTask_settled ::
  "detail_state \<Rightarrow> unit outcome \<Rightarrow> detail_state completion" where
  "handleUpdateTask_settled s r =
     finally_block
       (catch_block
          (await s r (\<lambda>_. Normal s [Alert Basarili DetailUpdated [], GoBack]))
          (\<lambda>e s'. (s', [ConsoleError UpdateError e, Alert Hata DetailUpdateFailed []])))
       (\<lambda>s'. s'\<lparr>detail_saving := False\<rparr>)"

text \<open>
  \<^verbatim>\<open>handleDeleteTask\<close> only shows the prompt: a cancel button with no handler and a
  destructive one bound to \<^verbatim>\<open>performDelete\<close>.
\<close>

definition cancelButton :: button where
  "cancelButton = \<lparr>button_style = CancelStyle, button_onPress = None\<rparr>"

definition silButton :: button where
  "silButton = \<lparr>button_style = DestructiveStyle, button_onPress = Some PerformDelete\<rparr>"

definition handleDeleteTask :: "detail_state \<Rightarrow> detail_state \<times> effect list" where
  "handleDeleteTask s = (s, [Alert Onay DetailDeleteConfirm [cancelButton, silButton]])"

definition performDelete :: "detail_state \<Rightarrow> detail_state \<times> effect list" where
  "performDelete s = (s, [Request (Delete (TaskItem (detail_taskId s)))])"

definition performDelete_settled ::
  "detail_state \<Rightarrow> unit outcome \<Rightarrow> detail_state completion" where
  "performDelete_settled s r =
     catch_block
       (await s r (\<lambda>_. Normal s [Alert Basarili DetailDeleted [], GoBack]))
       (\<lambda>e s'. (s', [ConsoleError DeleteError e, Alert Hata DetailDeleteFailed []]))"

text \<open>Pressing a button of an alert runs the handler bound to it, if there is one.\<close>

definition pressAlertButton :: "button \<Rightarrow> detail_state \<Rightarrow> detail_state \<times> effect list" where
  "pressAlertButton b s =
     (case button_onPress b of
        None \<Rightarrow> (s, [])
      | Some PerformDelete \<Rightarrow> performDelete s)"

text \<open>
  The screen as the user drives it. While \<^verbatim>\<open>loading\<close> the component renders the
  spinner alone, so the form, the header and their handlers are out of reach; the update
  button has \<^verbatim>\<open>disabled={saving}\<close>. The three counters hold the requests in flight.
  \<open>dw_prompt\<close> holds the buttons of the confirmation prompt while it is on display:
  a button can be pressed only there, by its position, and pressing one dismisses the
  prompt.
\<close>

record detail_world =
  dw_screen :: detail_state
  dw_fetching :: nat
  dw_updating :: nat
  dw_deleting :: nat
  dw_prompt :: "button list"

datatype detail_event =
    Mount
  | FetchSettled "task outcome"
  | ChangeTitle jsstring
  | ChangeDescription jsstring
  | SwitchValue bool
  | PressUpdate
  | UpdateSettled "unit outcome"
  | PressDelete
  | PressAlertButton nat
  | DeleteSettled "unit outcome"
  | PressBack

definition detail_route :: "int \<Rightarrow> detail_world" where
  "detail_route i =
     \<lparr>dw_screen = detail_initial i, dw_fetching = 0, dw_updating = 0, dw_deleting = 0,
      dw_prompt = []\<rparr>"

fun buttons :: "effect \<Rightarrow> button list" where
  "buttons (Alert t m bs) = bs"
| "buttons e = []"

fun detail_step :: "detail_world \<Rightarrow> detail_event \<Rightarrow> detail_world \<times> effect list" where
  "detail_step w Mount =
     (case fetchTask (dw_screen w) of
        (s', es) \<Rightarrow> (w\<lparr>dw_screen := s', dw_fetching := dw_fetching w + requests es\<rparr>, es))"
| "detail_step w (FetchSettled r) =
     (if dw_fetching w = 0 then (w, [])
      else (case settle (fetchTask_settled (dw_screen w) r) of
              (s', es) \<Rightarrow> (w\<lparr>dw_screen := s', dw_fetching := dw_fetching w - 1\<rparr>, es)))"
| "detail_step w (ChangeTitle v) =
     (if detail_loading (dw_screen w) then (w, [])
      else (w\<lparr>dw_screen := (dw_screen w)\<lparr>detail_title := v\<rparr>\<rparr>, []))"
| "detail_step w (ChangeDescription v) =
     (if detail_loading (dw_screen w) then (w, [])
      else (w\<lparr>dw_screen := (dw_screen w)\<lparr>detail_description := v\<rparr>\<rparr>, []))"
| "detail_step w (SwitchValue v) =
     (if detail_loading (dw_screen w) then (w, [])
      else (w\<lparr>dw_screen := (dw_screen w)\<lparr>detail_isCompleted := v\<rparr>\<rparr>, []))"
| "detail_step w PressUpdate =
     (if detail_loading (dw_screen w) \<or> detail_saving (dw_screen w) then (w, [])
      else (case handleUpdateTask (dw_screen w) of
              (s', es) \<Rightarrow> (w\<lparr>dw_screen := s', dw_updating := dw_updating w + requests es\<rparr>, es)))"
| "detail_step w (UpdateSettled r) =
     (if dw_updating w = 0 then (w, [])
      else (case settle (handleUpdateTask_settled (dw_screen w) r) of
              (s', es) \<Rightarrow> (w\<lparr>dw_screen := s', dw_updating := dw_updating w - 1\<rparr>, es)))"
| "detail_step w PressDelete =
     (if detail_loading (dw_screen w) then (w, [])
      else (case handleDeleteTask (dw_screen w) of
              (s', es) \<Rightarrow> (w\<lparr>dw_screen := s', dw_prompt := concat (map buttons es)\<rparr>, es)))"
| "detail_step w (PressAlertButton n) =
     (if length (dw_prompt w) \<le> n then (w, [])
      else (case pressAlertButton (dw_prompt w ! n) (dw_screen w) of
              (s', es) \<Rightarrow>
                (w\<lparr>dw_screen := s', dw_deleting := dw_deleting w + requests es,
                   dw_prompt := []\<rparr>, es)))"
| "detail_step w (DeleteSettled r) =
     (if dw_deleting w = 0 then (w, [])
      else (case settle (performDelete_settled (dw_screen w) r) of
              (s', es) \<Rightarrow> (w\<lparr>dw_screen := s', dw_deleting := dw_deleting w - 1\<rparr>, es)))"
| "detail_step w PressBack =
     (if detail_loading (dw_screen w) then (w, []) else (w, [GoBack]))"

fun detail_run :: "detail_world \<Rightarrow> detail_event list \<Rightarrow> detail_world \<times> effect list" where
  "detail_run w [] = (w, [])"
| "detail_run w (e # evs) =
     (case detail_step w e of
        (w1, es1) \<Rightarrow> (case detail_run w1 evs of (w2, es2) \<Rightarrow> (w2, es1 @ es2)))"

text \<open>
  What every state the screen can reach has: the \<^verbatim>\<open>taskId\<close> of the route, a prompt
  that is either absent or the one of \<^verbatim>\<open>handleDeleteTask\<close>, and an update in flight
  exactly when \<^verbatim>\<open>saving\<close> is set.
\<close>

definition detail_inv :: "int \<Rightarrow> detail_world \<Rightarrow> bool" where
  "detail_inv i w \<longleftrightarrow>
     detail_taskId (dw_screen w) = i
     \<and> (dw_prompt w = [] \<or> dw_prompt w = [cancelButton, silButton])
     \<and> dw_updating w = (if detail_saving (dw_screen w) then 1 else 0)"

section \<open>The list screen\<close>

text \<open>
  A pending timer: the handle \<^verbatim>\<open>setTimeout\<close> returned for it, the time it is due,
  and the \<^verbatim>\<open>searchText\<close> its callback holds. The only callback ever passed to
  \<^verbatim>\<open>setTimeout\<close> is \<^verbatim>\<open>() => fetchTasks(searchText)\<close>.
\<close>

record timer =
  timer_handle :: nat
  timer_due :: nat
  timer_query :: jsstring

text \<open>
  The four \<^verbatim>\<open>useState\<close> cells; the timers that are pending, in the order they were
  set; the handle the next \<^verbatim>\<open>setTimeout\<close> returns; the \<^verbatim>\<open>handler\<close> that the cleanup
  of the search effect last run holds; and the clock, in milliseconds.
\<close>

record home_state =
  home_tasks :: "task list"
  home_loading :: bool
  home_searchText :: jsstring
  home_refreshing :: bool
  home_timers :: "timer list"
  home_nextHandle :: nat
  home_handler :: "nat option"
  home_now :: nat

text \<open>\<^verbatim>\<open>fetchTasks\<close>: up to the \<^verbatim>\<open>await\<close>, and after it.\<close>

definition fetchTasks :: "home_state \<Rightarrow> jsstring \<Rightarrow> home_state \<times> effect list" where
  "fetchTasks s query =
     (s, [Request (Get (Tasks (if query \<noteq> [] then js ''?search='' @ query else [])))])"

definition fetchTasks_settled :: "home_state \<Rightarrow> task list outcome \<Rightarrow> home_state completion" where
  "fetchTasks_settled s r =
     finally_block
       (catch_block
          (await s r (\<lambda>data. Normal (s\<lparr>home_tasks := data\<rparr>) []))
          (\<lambda>e s'. (s', [ConsoleError ErrorFetchingTasks e])))
       (\<lambda>s'. s'\<lparr>home_loading := False, home_refreshing := False\<rparr>)"

text \<open>
  \<^verbatim>\<open>setTimeout\<close> adds a timer to the pending ones and returns its handle; the timers
  set before stay pending. \<^verbatim>\<open>clearTimeout\<close> removes the timer with the given handle
  and no other.
\<close>

definition setTimeout :: "jsstring \<Rightarrow> nat \<Rightarrow> home_state \<Rightarrow> nat \<times> home_state" where
  "setTimeout query delay s =
     (home_nextHandle s,
      s\<lparr>home_timers := home_timers s @
            [\<lparr>timer_handle = home_nextHandle s, timer_due = home_now s + delay,
              timer_query = query\<rparr>],
        home_nextHandle := Suc (home_nextHandle s)\<rparr>)"

definition clearTimeout :: "nat \<Rightarrow> home_state \<Rightarrow> home_state" where
  "clearTimeout h s = s\<lparr>home_timers := filter (\<lambda>x. timer_handle x \<noteq> h) (home_timers s)\<rparr>"

text \<open>
  The search effect, with dependency \<^verbatim>\<open>searchText\<close>: its body sets the flag and a
  300 ms timer and keeps the handle for its cleanup, which clears that timer. React runs
  the cleanup of the effect last run and then the body after a render in which
  \<^verbatim>\<open>searchText\<close> differs; setting the state to the value it has renders nothing.
\<close>

definition searchEffect :: "home_state \<Rightarrow> home_state" where
  "searchEffect s =
     (case setTimeout (home_searchText s) 300 (s\<lparr>home_loading := True\<rparr>) of
        (handler, s') \<Rightarrow> s'\<lparr>home_handler := Some handler\<rparr>)"

definition searchEffect_cleanup :: "home_state \<Rightarrow> home_state" where
  "searchEffect_cleanup s =
     (case home_handler s of
        None \<Rightarrow> s
      | Some handler \<Rightarrow> clearTimeout handler s)"

definition home_mount :: home_state where
  "home_mount =
     searchEffect
       \<lparr>home_tasks = [], home_loading = True, home_searchText = [], home_refreshing = False,
        home_timers = [], home_nextHandle = 0, home_handler = None, home_now = 0\<rparr>"

definition onChangeText :: "jsstring \<Rightarrow> home_state \<Rightarrow> home_state" where
  "onChangeText v s =
     (if v = home_searchText s then s
      else searchEffect (searchEffect_cleanup (s\<lparr>home_searchText := v\<rparr>)))"

text \<open>
  \<open>elapse d\<close> lets \<open>d\<close> milliseconds pass with no input. Every pending timer that falls
  due leaves the pending ones and runs its callback, \<^verbatim>\<open>fetchTasks\<close> on the text it
  holds; the callbacks run in the order the timers are due, and in the order they were
  set where that is the same.
\<close>

fun fire :: "timer list \<Rightarrow> home_state \<Rightarrow> home_state \<times> effect list" where
  "fire [] s = (s, [])"
| "fire (x # xs) s =
     (case fetchTasks s (timer_query x) of
        (s1, es1) \<Rightarrow> (case fire xs s1 of (s2, es2) \<Rightarrow> (s2, es1 @ es2)))"

definition elapse :: "nat \<Rightarrow> home_state \<Rightarrow> home_state \<times> effect list" where
  "elapse d s =
     fire (sort_key timer_due (filter (\<lambda>x. timer_due x \<le> home_now s + d) (home_timers s)))
       (s\<lparr>home_timers := filter (\<lambda>x. \<not> timer_due x \<le> home_now s + d) (home_timers s),
          home_now := home_now s + d\<rparr>)"

text \<open>
  A run of input changes, each given with the time since the one before it, started from
  a state in which the first change has just been made.
\<close>

fun changes :: "home_state \<Rightarrow> (nat \<times> jsstring) list \<Rightarrow> home_state \<times> effect list" where
  "changes s [] = (s, [])"
| "changes s ((d, v) # cs) =
     (case elapse d s of
        (s1, es1) \<Rightarrow> (case changes (onChangeText v s1) cs of (s2, es2) \<Rightarrow> (s2, es1 @ es2)))"

text \<open>Every text of the run differs from the one before it.\<close>

fun differs :: "jsstring \<Rightarrow> jsstring list \<Rightarrow> bool" where
  "differs prev [] = True"
| "differs prev (v # vs) = (v \<noteq> prev \<and> differs v vs)"

definition onFocus :: "home_state \<Rightarrow> home_state \<times> effect list" where
  "onFocus s = fetchTasks s (home_searchText s)"

definition handleRefresh :: "home_state \<Rightarrow> home_state \<times> effect list" where
  "handleRefresh s = fetchTasks (s\<lparr>home_refreshing := True\<rparr>) (home_searchText s)"

text \<open>
  \<^verbatim>\<open>handleToggleStatus\<close>: up to the \<^verbatim>\<open>await\<close> of the PUT, and after it. The
  source marks the \<^verbatim>\<open>setTasks\<close> call \<^verbatim>\<open>// Optimistic update\<close>; the call stands
  after the \<^verbatim>\<open>await\<close>, inside the \<^verbatim>\<open>try\<close>.
\<close>

definition handleToggleStatus :: "home_state \<Rightarrow> int \<Rightarrow> bool \<Rightarrow> home_state \<times> effect list" where
  "handleToggleStatus s i status =
     (s, [Request (Put (TaskItem i)
            \<lparr>body_title = None, body_description = None, body_isCompleted = Some status\<rparr>)])"

definition handleToggleStatus_settled ::
  "home_state \<Rightarrow> int \<Rightarrow> bool \<Rightarrow> unit outcome \<Rightarrow> home_state completion" where
  "handleToggleStatus_settled s i status r =
     catch_block
       (await s r (\<lambda>_.
          Normal (s\<lparr>home_tasks :=
                      map (\<lambda>t. if task_id t = i then t\<lparr>task_isCompleted := status\<rparr> else t)
                        (home_tasks s)\<rparr>) []))
       (\<lambda>e s'. (s', [ConsoleError ErrorUpdatingStatus e]))"

text \<open>The checkbox of a \<^verbatim>\<open>TodoItem\<close> asks for the opposite of what the task shows.\<close>

definition onToggle :: "home_state \<Rightarrow> task \<Rightarrow> home_state \<times> effect list" where
  "onToggle s t = handleToggleStatus s (task_id t) (\<not> task_isCompleted t)"

text \<open>
  The screen as the user and the clock drive it. The list, with its checkboxes and its
  refresh control, is rendered unless \<^verbatim>\<open>loading && !refreshing\<close>; the search input is
  always there. \<open>hw_fetching\<close> counts the list fetches in flight and \<open>hw_toggling\<close>
  holds the arguments of the toggles whose PUT has not settled.
\<close>

record home_world =
  hw_screen :: home_state
  hw_fetching :: nat
  hw_toggling :: "(int \<times> bool) list"

datatype home_event =
    Elapse nat
  | ChangeText jsstring
  | Focus
  | Refresh
  | TasksSettled "task list outcome"
  | PressCheckbox nat
  | ToggleSettled nat "unit outcome"

definition home_start :: home_world where
  "home_start = \<lparr>hw_screen = home_mount, hw_fetching = 0, hw_toggling = []\<rparr>"

fun home_step :: "home_world \<Rightarrow> home_event \<Rightarrow> home_world \<times> effect list" where
  "home_step w (Elapse d) =
     (case elapse d (hw_screen w) of
        (s', es) \<Rightarrow> (w\<lparr>hw_screen := s', hw_fetching := hw_fetching w + requests es\<rparr>, es))"
| "home_step w (ChangeText v) = (w\<lparr>hw_screen := onChangeText v (hw_screen w)\<rparr>, [])"
| "home_step w Focus =
     (case onFocus (hw_screen w) of
        (s', es) \<Rightarrow> (w\<lparr>hw_screen := s', hw_fetching := hw_fetching w + requests es\<rparr>, es))"
| "home_step w Refresh =
     (if home_loading (hw_screen w) \<and> \<not> home_refreshing (hw_screen w) then (w, [])
      else (case handleRefresh (hw_screen w) of
              (s', es) \<Rightarrow> (w\<lparr>hw_screen := s', hw_fetching := hw_fetching w + requests es\<rparr>, es)))"
| "home_step w (TasksSettled r) =
     (if hw_fetching w = 0 then (w, [])
      else (case settle (fetchTasks_settled (hw_screen w) r) of
              (s', es) \<Rightarrow> (w\<lparr>hw_screen := s', hw_fetching := hw_fetching w - 1\<rparr>, es)))"
| "home_step w (PressCheckbox n) =
     (if (home_loading (hw_screen w) \<and> \<not> home_refreshing (hw_screen w))
         \<or> length (home_tasks (hw_screen w)) \<le> n then (w, [])
      else (case onToggle (hw_screen w) (home_tasks (hw_screen w) ! n) of
              (s', es) \<Rightarrow>
                (w\<lparr>hw_screen := s',
                   hw_toggling := hw_toggling w @
                     [(task_id (home_tasks (hw_screen w) ! n),
                       \<not> task_isCompleted (home_tasks (hw_screen w) ! n))]\<rparr>, es)))"
| "home_step w (ToggleSettled n r) =
     (if length (hw_toggling w) \<le> n then (w, [])
      else (case hw_toggling w ! n of
              (i, status) \<Rightarrow>
                (case settle (handleToggleStatus_settled (hw_screen w) i status r) of
                   (s', es) \<Rightarrow>
                     (w\<lparr>hw_screen := s',
                        hw_toggling := take n (hw_toggling w) @ drop (Suc n) (hw_toggling w)\<rparr>,
                      es))))"

fun home_run :: "home_world \<Rightarrow> home_event list \<Rightarrow> home_world \<times> effect list" where
  "home_run w [] = (w, [])"
| "home_run w (e # evs) =
     (case home_step w e of
        (w1, es1) \<Rightarrow> (case home_run w1 evs of (w2, es2) \<Rightarrow> (w2, es1 @ es2)))"

text \<open>
  What every state the list screen can reach has: each pending timer is the one whose
  handle the cleanup of the search effect holds.
\<close>

definition home_inv :: "home_state \<Rightarrow> bool" where
  "home_inv s \<longleftrightarrow> (\<forall>x \<in> set (home_timers s). home_handler s = Some (timer_handle x))"

section \<open>Properties\<close>

subsection \<open>Trimming and the try statement\<close>

lemma dropWhile_all_iff: "(\<forall>x \<in> set (dropWhile P xs). P x) \<longleftrightarrow> (\<forall>x \<in> set xs. P x)"
proof
  assume a: "\<forall>x \<in> set (dropWhile P xs). P x"
  have "dropWhile P xs = []"
  proof (rule ccontr)
    assume n: "dropWhile P xs \<noteq> []"
    then have "\<not> P (hd (dropWhile P xs))" by (rule hd_dropWhile)
    moreover from n have "hd (dropWhile P xs) \<in> set (dropWhile P xs)" by simp
    ultimately show False using a by blast
  qed
  then show "\<forall>x \<in> set xs. P x" by (simp add: dropWhile_eq_Nil_conv)
next
  assume "\<forall>x \<in> set xs. P x"
  then show "\<forall>x \<in> set (dropWhile P xs). P x" by (auto dest: set_dropWhileD)
qed

lemma trim_empty_iff: "trim s = [] \<longleftrightarrow> (\<forall>c \<in> set s. isWhiteSpace c)"
  by (simp add: trim_def dropWhile_eq_Nil_conv dropWhile_all_iff)

lemmas try_defs = await_def catch_block_def finally_block_def

lemma handleSaveTask_settled_Resolved:
  "handleSaveTask_settled s (Resolved u) =
     Normal (s\<lparr>add_loading := False\<rparr>) [Alert Basarili AddSaved [], GoBack]"
  by (simp add: handleSaveTask_settled_def try_defs)

lemma handleSaveTask_settled_Rejected:
  "handleSaveTask_settled s (Rejected e) =
     Normal (s\<lparr>add_loading := False\<rparr>) [ConsoleError SaveError e, Alert Hata AddSaveFailed []]"
  by (simp add: handleSaveTask_settled_def try_defs)

lemma handleUpdateTask_settled_Resolved:
  "handleUpdateTask_settled s (Resolved u) =
     Normal (s\<lparr>detail_saving := False\<rparr>) [Alert Basarili DetailUpdated [], GoBack]"
  by (simp add: handleUpdateTask_settled_def try_defs)

lemma handleUpdateTask_settled_Rejected:
  "handleUpdateTask_settled s (Rejected e) =
     Normal (s\<lparr>detail_saving := False\<rparr>)
       [ConsoleError UpdateError e, Alert Hata DetailUpdateFailed []]"
  by (simp add: handleUpdateTask_settled_def try_defs)

subsection \<open>Validation of the title\<close>

text \<open>
  C2. A create submission (creation screen) or an update submission (detail screen) is
  rejected locally, with the alert and no request, exactly when the title is empty after
  trimming, which is exactly when the title is empty or holds white space only.
\<close>

theorem empty_title_rejected_locally:
  "(handleSaveTask a = (a, [Alert Hata AddTitleEmpty []])
      \<longleftrightarrow> (\<forall>c \<in> set (add_title a). isWhiteSpace c))
   \<and> (requests (snd (handleSaveTask a)) = 0 \<longleftrightarrow> trim (add_title a) = [])
   \<and> (list_ex isAlert (snd (handleSaveTask a)) \<longleftrightarrow> trim (add_title a) = [])
   \<and> (handleUpdateTask d = (d, [Alert Hata DetailTitleEmpty []])
      \<longleftrightarrow> (\<forall>c \<in> set (detail_title d). isWhiteSpace c))
   \<and> (requests (snd (handleUpdateTask d)) = 0 \<longleftrightarrow> trim (detail_title d) = [])
   \<and> (list_ex isAlert (snd (handleUpdateTask d)) \<longleftrightarrow> trim (detail_title d) = [])
   \<and> (trim (add_title a) = [] \<longleftrightarrow> (\<forall>c \<in> set (add_title a). isWhiteSpace c))
   \<and> (trim (detail_title d) = [] \<longleftrightarrow> (\<forall>c \<in> set (detail_title d). isWhiteSpace c))"
  by (simp add: handleSaveTask_def handleUpdateTask_def requests_def
      trim_empty_iff [symmetric])

theorem empty_title_rejected_locally_witness:
  "handleSaveTask \<lparr>add_title = [0x20, 0x09, 0xA0], add_description = js ''x'', add_loading = False\<rparr>
     = (\<lparr>add_title = [0x20, 0x09, 0xA0], add_description = js ''x'', add_loading = False\<rparr>,
        [Alert Hata AddTitleEmpty []])
   \<and> requests (snd (handleUpdateTask
        \<lparr>detail_taskId = 7, detail_title = js ''  '', detail_description = [],
         detail_isCompleted = False, detail_loading = False, detail_saving = False\<rparr>)) = 0"
proof -
  let ?a = "\<lparr>add_title = [0x20, 0x09, 0xA0], add_description = js ''x'', add_loading = False\<rparr>"
  let ?d = "\<lparr>detail_taskId = 7, detail_title = js ''  '', detail_description = [],
         detail_isCompleted = False, detail_loading = False, detail_saving = False\<rparr>"
  have blank_a: "\<forall>c \<in> set (add_title ?a). isWhiteSpace c"
    by (simp add: isWhiteSpace_def)
  have blank_d: "trim (detail_title ?d) = []"
    by (simp add: js_def trim_def isWhiteSpace_def)
  note th = empty_title_rejected_locally [of ?a ?d]
  from th blank_a have "handleSaveTask ?a = (?a, [Alert Hata AddTitleEmpty []])"
    by blast
  moreover from th blank_d have "requests (snd (handleUpdateTask ?d)) = 0"
    by blast
  ultimately show ?thesis by blast
qed

subsection \<open>Creating a task\<close>

text \<open>
  C7. A submission of the creation form whose trimmed title is not empty sends a POST to
  the collection with the trimmed title and the trimmed description; when it resolves
  the screen navigates back, and when it rejects the screen does not navigate and both
  fields keep what the user typed.
\<close>

theorem create_posts_trimmed_fields:
  assumes "trim (add_title s) \<noteq> []"
  shows "handleSaveTask s =
           (s\<lparr>add_loading := True\<rparr>,
            [Request (Post (Tasks [])
               \<lparr>body_title = Some (trim (add_title s)),
                body_description = Some (trim (add_description s)),
                body_isCompleted = None\<rparr>)])
         \<and> effects_of (handleSaveTask_settled (fst (handleSaveTask s)) (Resolved ()))
             = [Alert Basarili AddSaved [], GoBack]
         \<and> (\<forall>e. GoBack \<notin> set (effects_of (handleSaveTask_settled (fst (handleSaveTask s)) (Rejected e)))
              \<and> add_title (state_of (handleSaveTask_settled (fst (handleSaveTask s)) (Rejected e)))
                  = add_title s
              \<and> add_description (state_of (handleSaveTask_settled (fst (handleSaveTask s)) (Rejected e)))
                  = add_description s)"
  using assms
  by (simp add: handleSaveTask_def handleSaveTask_settled_Resolved handleSaveTask_settled_Rejected)

theorem create_posts_trimmed_fields_witness:
  "handleSaveTask \<lparr>add_title = js '' Buy milk '', add_description = [], add_loading = False\<rparr> =
     (\<lparr>add_title = js '' Buy milk '', add_description = [], add_loading = True\<rparr>,
      [Request (Post (Tasks [])
         \<lparr>body_title = Some (js ''Buy milk''), body_description = Some [],
          body_isCompleted = None\<rparr>)])"
proof -
  have t: "trim (js '' Buy milk '') = js ''Buy milk''"
    by (simp add: js_def trim_def isWhiteSpace_def)
  then have "trim (add_title \<lparr>add_title = js '' Buy milk '', add_description = [], add_loading = False\<rparr>) \<noteq> []"
    by (simp add: js_def)
  from create_posts_trimmed_fields [OF this] t show ?thesis
    by (simp add: trim_def)
qed

subsection \<open>Loading and saving on the detail screen\<close>

lemma fetchTask_settled_Rejected:
  "fetchTask_settled s (Rejected e) =
     Normal (s\<lparr>detail_loading := False\<rparr>)
       [ConsoleError FetchDetailError e, Alert Hata DetailLoadFailed [], GoBack]"
  by (simp add: fetchTask_settled_def try_defs)

lemma fetchTask_settled_Resolved:
  "fetchTask_settled s (Resolved t) =
     Normal (s\<lparr>detail_title := task_title t,
               detail_description := (case task_description t of None \<Rightarrow> [] | Some d \<Rightarrow> d),
               detail_isCompleted := task_isCompleted t,
               detail_loading := False\<rparr>) []"
  by (simp add: fetchTask_settled_def try_defs split: option.splits)

subsection \<open>The list: a failed fetch, a toggle\<close>


text \<open>
  C9. Issuing the PUT of a toggle changes nothing in the state; if the PUT rejects the
  state, and the list with it, is exactly what it was, and the error is logged. The list
  entry is rewritten only in the continuation of a PUT that resolved.
\<close>

theorem toggle_failure_keeps_tasks:
  "fst (handleToggleStatus s i status) = s
   \<and> handleToggleStatus_settled s i status (Rejected e)
       = Normal s [ConsoleError ErrorUpdatingStatus e]
   \<and> handleToggleStatus_settled s i status (Resolved ())
       = Normal (s\<lparr>home_tasks :=
                     map (\<lambda>t. if task_id t = i then t\<lparr>task_isCompleted := status\<rparr> else t)
                       (home_tasks s)\<rparr>) []"
  by (simp add: handleToggleStatus_def handleToggleStatus_settled_def try_defs)

text \<open>
  C1. The list holds task 1, not completed, and its checkbox is pressed. When the handler
  has issued the PUT and waits for the response, the entry still reads not completed,
  and it still does after the PUT has rejected: the entry is not updated ahead of the
  response.
\<close>

theorem toggle_waits_for_response:
  "home_tasks (fst (onToggle
       \<lparr>home_tasks = [\<lparr>task_id = 1, task_title = js ''A'', task_description = None,
                       task_isCompleted = False, task_createdAt = []\<rparr>],
        home_loading = False, home_searchText = [], home_refreshing = False,
        home_timers = [], home_nextHandle = 0, home_handler = None, home_now = 0\<rparr>
       \<lparr>task_id = 1, task_title = js ''A'', task_description = None,
        task_isCompleted = False, task_createdAt = []\<rparr>))
     = [\<lparr>task_id = 1, task_title = js ''A'', task_description = None,
         task_isCompleted = False, task_createdAt = []\<rparr>]
   \<and> snd (onToggle
       \<lparr>home_tasks = [\<lparr>task_id = 1, task_title = js ''A'', task_description = None,
                       task_isCompleted = False, task_createdAt = []\<rparr>],
        home_loading = False, home_searchText = [], home_refreshing = False,
        home_timers = [], home_nextHandle = 0, home_handler = None, home_now = 0\<rparr>
       \<lparr>task_id = 1, task_title = js ''A'', task_description = None,
        task_isCompleted = False, task_createdAt = []\<rparr>)
     = [Request (Put (TaskItem 1)
          \<lparr>body_title = None, body_description = None, body_isCompleted = Some True\<rparr>)]
   \<and> home_tasks (state_of (handleToggleStatus_settled
       \<lparr>home_tasks = [\<lparr>task_id = 1, task_title = js ''A'', task_description = None,
                       task_isCompleted = False, task_createdAt = []\<rparr>],
        home_loading = False, home_searchText = [], home_refreshing = False,
        home_timers = [], home_nextHandle = 0, home_handler = None, home_now = 0\<rparr> 1 True (Rejected NetworkError)))
     = [\<lparr>task_id = 1, task_title = js ''A'', task_description = None,
         task_isCompleted = False, task_createdAt = []\<rparr>]"
  by (simp add: onToggle_def handleToggleStatus_def handleToggleStatus_settled_def try_defs)

text \<open>
  C8. Mounting the detail screen issues a GET for the task whose id is the route
  parameter. If it rejects, the screen logs, shows the alert and navigates back; it
  issues no further request.
\<close>

theorem detail_mount_fetches_by_id:
  "snd (detail_step (detail_route i) Mount) = [Request (Get (TaskItem i))]
   \<and> snd (detail_run (detail_route i) [Mount, FetchSettled (Rejected e)])
       = [Request (Get (TaskItem i)),
          ConsoleError FetchDetailError e, Alert Hata DetailLoadFailed [], GoBack]
   \<and> requests (effects_of (fetchTask_settled s (Rejected e))) = 0
   \<and> effects_of (fetchTask_settled s (Rejected e))
       = [ConsoleError FetchDetailError e, Alert Hata DetailLoadFailed [], GoBack]"
  by (simp add: detail_route_def detail_initial_def fetchTask_def requests_def
      fetchTask_settled_Rejected)

theorem detail_mount_fetches_by_id_witness:
  "snd (detail_run (detail_route 42) [Mount, FetchSettled (Rejected (HttpStatus 404))])
     = [Request (Get (TaskItem 42)),
        ConsoleError FetchDetailError (HttpStatus 404), Alert Hata DetailLoadFailed [], GoBack]"
  using detail_mount_fetches_by_id [of 42 "HttpStatus 404"] by simp

text \<open>
  C6. Saving with a title that is not empty after trimming issues a PUT for the task
  with all three fields: the trimmed title, the trimmed description and the completion
  flag. When the PUT resolves the screen navigates back; when it rejects the screen shows
  an alert, does not navigate, and the saving flag is off again. In the witness the
  screen has loaded \<^verbatim>\<open>{id: 42, title: "X", isCompleted: false}\<close> and the switch has
  been turned on.
\<close>

theorem detail_save_full_field_put:
  assumes "trim (detail_title s) \<noteq> []"
  shows "handleUpdateTask s =
           (s\<lparr>detail_saving := True\<rparr>,
            [Request (Put (TaskItem (detail_taskId s))
               \<lparr>body_title = Some (trim (detail_title s)),
                body_description = Some (trim (detail_description s)),
                body_isCompleted = Some (detail_isCompleted s)\<rparr>)])
         \<and> handleUpdateTask_settled (fst (handleUpdateTask s)) (Resolved ())
             = Normal (s\<lparr>detail_saving := False\<rparr>) [Alert Basarili DetailUpdated [], GoBack]
         \<and> (\<forall>e. handleUpdateTask_settled (fst (handleUpdateTask s)) (Rejected e)
             = Normal (s\<lparr>detail_saving := False\<rparr>)
                 [ConsoleError UpdateError e, Alert Hata DetailUpdateFailed []])"
  using assms
  by (simp add: handleUpdateTask_def handleUpdateTask_settled_Resolved
      handleUpdateTask_settled_Rejected)

theorem detail_save_full_field_put_witness:
  "dw_screen (fst (detail_run (detail_route 42)
      [Mount,
       FetchSettled (Resolved \<lparr>task_id = 42, task_title = js ''X'', task_description = None,
                               task_isCompleted = False, task_createdAt = []\<rparr>),
       SwitchValue True]))
     = \<lparr>detail_taskId = 42, detail_title = js ''X'', detail_description = [],
        detail_isCompleted = True, detail_loading = False, detail_saving = False\<rparr>
   \<and> snd (handleUpdateTask
        \<lparr>detail_taskId = 42, detail_title = js ''X'', detail_description = [],
         detail_isCompleted = True, detail_loading = False, detail_saving = False\<rparr>)
     = [Request (Put (TaskItem 42)
          \<lparr>body_title = Some (js ''X''), body_description = Some [],
           body_isCompleted = Some True\<rparr>)]"
proof -
  let ?s = "\<lparr>detail_taskId = 42, detail_title = js ''X'', detail_description = [],
        detail_isCompleted = True, detail_loading = False, detail_saving = False\<rparr>"
  have t: "trim (js ''X'') = js ''X''" and d: "trim [] = []"
    by (simp_all add: js_def trim_def isWhiteSpace_def)
  then have "trim (detail_title ?s) \<noteq> []"
    by (simp add: js_def)
  from detail_save_full_field_put [OF this] t d
  have put: "snd (handleUpdateTask ?s)
     = [Request (Put (TaskItem 42)
          \<lparr>body_title = Some (js ''X''), body_description = Some [],
           body_isCompleted = Some True\<rparr>)]"
    by simp
  have run: "dw_screen (fst (detail_run (detail_route 42)
      [Mount,
       FetchSettled (Resolved \<lparr>task_id = 42, task_title = js ''X'', task_description = None,
                               task_isCompleted = False, task_createdAt = []\<rparr>),
       SwitchValue True])) = ?s"
    by (simp add: detail_route_def detail_initial_def fetchTask_def requests_def
        fetchTask_settled_Resolved)
  from run put show ?thesis by simp
qed

subsection \<open>Invariants of the two forms\<close>

lemma performDelete_settled_cases:
  "performDelete_settled s (Resolved u) = Normal s [Alert Basarili DetailDeleted [], GoBack]"
  "performDelete_settled s (Rejected e) =
     Normal s [ConsoleError DeleteError e, Alert Hata DetailDeleteFailed []]"
  by (simp_all add: performDelete_settled_def try_defs)

lemma add_inv_step: "add_inv w \<Longrightarrow> add_inv (fst (add_step w ev))"
proof (cases ev)
  case (AddPostSettled r)
  then show "add_inv w \<Longrightarrow> add_inv (fst (add_step w ev))"
    by (cases r)
      (auto simp: add_inv_def handleSaveTask_settled_Resolved handleSaveTask_settled_Rejected
        split: if_splits)
qed (auto simp: add_inv_def handleSaveTask_def requests_def split: if_splits)

lemma add_inv_run: "add_inv w \<Longrightarrow> add_inv (fst (add_run w evs))"
proof (induction evs arbitrary: w)
  case Nil
  then show ?case by simp
next
  case (Cons ev evs)
  from Cons.prems have "add_inv (fst (add_step w ev))" by (rule add_inv_step)
  then have "add_inv (fst (add_run (fst (add_step w ev)) evs))" by (rule Cons.IH)
  then show ?case by (simp add: split_beta)
qed

lemma add_inv_mount: "add_inv add_mount"
  by (simp add: add_inv_def add_mount_def add_initial_def)

lemma detail_inv_step: "detail_inv i w \<Longrightarrow> detail_inv i (fst (detail_step w ev))"
proof (cases ev)
  case (FetchSettled r)
  then show "detail_inv i w \<Longrightarrow> detail_inv i (fst (detail_step w ev))"
    by (cases r)
      (auto simp: detail_inv_def fetchTask_settled_Resolved fetchTask_settled_Rejected
        split: if_splits)
next
  case (UpdateSettled r)
  then show "detail_inv i w \<Longrightarrow> detail_inv i (fst (detail_step w ev))"
    by (cases r)
      (auto simp: detail_inv_def handleUpdateTask_settled_Resolved
        handleUpdateTask_settled_Rejected split: if_splits)
next
  case (DeleteSettled r)
  then show "detail_inv i w \<Longrightarrow> detail_inv i (fst (detail_step w ev))"
    by (cases r) (auto simp: detail_inv_def performDelete_settled_cases split: if_splits)
next
  case (PressAlertButton n)
  then show "detail_inv i w \<Longrightarrow> detail_inv i (fst (detail_step w ev))"
    by (auto simp: detail_inv_def pressAlertButton_def performDelete_def
        split: if_splits option.splits handler.splits)
qed (auto simp: detail_inv_def fetchTask_def handleUpdateTask_def handleDeleteTask_def
    requests_def split: if_splits)

lemma detail_inv_run: "detail_inv i w \<Longrightarrow> detail_inv i (fst (detail_run w evs))"
proof (induction evs arbitrary: w)
  case Nil
  then show ?case by simp
next
  case (Cons ev evs)
  from Cons.prems have "detail_inv i (fst (detail_step w ev))" by (rule detail_inv_step)
  then have "detail_inv i (fst (detail_run (fst (detail_step w ev)) evs))" by (rule Cons.IH)
  then show ?case by (simp add: split_beta)
qed

lemma detail_inv_route: "detail_inv i (detail_route i)"
  by (simp add: detail_inv_def detail_route_def detail_initial_def)

subsection \<open>Deleting a task\<close>

lemma delete_request_step:
  assumes "Request (Delete u) \<in> set (snd (detail_step w ev))"
  shows "\<exists>n. ev = PressAlertButton n \<and> n < length (dw_prompt w)
           \<and> button_onPress (dw_prompt w ! n) = Some PerformDelete
           \<and> u = TaskItem (detail_taskId (dw_screen w))"
proof (cases ev)
  case (FetchSettled r)
  with assms show ?thesis
    by (cases r)
      (auto simp: fetchTask_settled_Resolved fetchTask_settled_Rejected split: if_splits)
next
  case (UpdateSettled r)
  with assms show ?thesis
    by (cases r)
      (auto simp: handleUpdateTask_settled_Resolved handleUpdateTask_settled_Rejected
        split: if_splits)
next
  case (DeleteSettled r)
  with assms show ?thesis
    by (cases r) (auto simp: performDelete_settled_cases split: if_splits)
next
  case (PressAlertButton n)
  with assms show ?thesis
    by (auto simp: pressAlertButton_def performDelete_def
        split: if_splits option.splits handler.splits)
qed (use assms in \<open>auto simp: fetchTask_def handleUpdateTask_def handleDeleteTask_def
    split: if_splits\<close>)

text \<open>
  C4. In every state the detail screen can reach, the only event that issues a DELETE is
  the press of the second, destructive button of the confirmation prompt while that
  prompt is on display, and the DELETE is for the task of the route. Invoking the delete
  action issues no request and leaves the screen state as it is; it only puts up the
  prompt. Pressing the cancel button dismisses the prompt with no request and no other
  change.
\<close>

theorem delete_needs_confirmation:
  assumes "w = fst (detail_run (detail_route i) evs)"
  shows "(\<forall>ev u. Request (Delete u) \<in> set (snd (detail_step w ev))
            \<longrightarrow> ev = PressAlertButton 1 \<and> dw_prompt w = [cancelButton, silButton]
                \<and> u = TaskItem i)
         \<and> requests (snd (detail_step w PressDelete)) = 0
         \<and> dw_screen (fst (detail_step w PressDelete)) = dw_screen w
         \<and> (\<not> detail_loading (dw_screen w)
              \<longrightarrow> dw_prompt (fst (detail_step w PressDelete)) = [cancelButton, silButton])
         \<and> (dw_prompt w = [cancelButton, silButton]
              \<longrightarrow> detail_step w (PressAlertButton 0) = (w\<lparr>dw_prompt := []\<rparr>, [])
                \<and> detail_step w (PressAlertButton 1)
                    = (w\<lparr>dw_deleting := Suc (dw_deleting w), dw_prompt := []\<rparr>,
                       [Request (Delete (TaskItem i))]))"
proof -
  have inv: "detail_inv i w"
    unfolding assms by (rule detail_inv_run) (rule detail_inv_route)
  have del: "ev = PressAlertButton 1 \<and> dw_prompt w = [cancelButton, silButton] \<and> u = TaskItem i"
    if "Request (Delete u) \<in> set (snd (detail_step w ev))" for ev u
  proof -
    from delete_request_step [OF that] obtain n where
      n: "ev = PressAlertButton n" "n < length (dw_prompt w)"
        "button_onPress (dw_prompt w ! n) = Some PerformDelete"
        "u = TaskItem (detail_taskId (dw_screen w))"
      by blast
    from inv n(2) have p: "dw_prompt w = [cancelButton, silButton]"
      by (auto simp: detail_inv_def)
    with n(2,3) have "n = 1"
      by (cases n) (auto simp: cancelButton_def silButton_def)
    with n p inv show ?thesis by (simp add: detail_inv_def)
  qed
  have press: "requests (snd (detail_step w PressDelete)) = 0"
    "dw_screen (fst (detail_step w PressDelete)) = dw_screen w"
    "\<not> detail_loading (dw_screen w)
       \<Longrightarrow> dw_prompt (fst (detail_step w PressDelete)) = [cancelButton, silButton]"
    by (simp_all add: handleDeleteTask_def requests_def)
  have choice: "detail_step w (PressAlertButton 0) = (w\<lparr>dw_prompt := []\<rparr>, [])
      \<and> detail_step w (PressAlertButton 1)
          = (w\<lparr>dw_deleting := Suc (dw_deleting w), dw_prompt := []\<rparr>,
             [Request (Delete (TaskItem i))])"
    if "dw_prompt w = [cancelButton, silButton]"
    using that inv
    by (simp add: detail_inv_def pressAlertButton_def performDelete_def cancelButton_def
        silButton_def requests_def)
  from del press choice show ?thesis by blast
qed

theorem delete_needs_confirmation_witness:
  "snd (detail_run (detail_route 42)
      [Mount,
       FetchSettled (Resolved \<lparr>task_id = 42, task_title = js ''X'', task_description = None,
                               task_isCompleted = False, task_createdAt = []\<rparr>),
       PressDelete, PressAlertButton 0])
     = [Request (Get (TaskItem 42)),
        Alert Onay DetailDeleteConfirm [cancelButton, silButton]]
   \<and> snd (detail_run (detail_route 42)
      [Mount,
       FetchSettled (Resolved \<lparr>task_id = 42, task_title = js ''X'', task_description = None,
                               task_isCompleted = False, task_createdAt = []\<rparr>),
       PressDelete, PressAlertButton 1])
     = [Request (Get (TaskItem 42)),
        Alert Onay DetailDeleteConfirm [cancelButton, silButton],
        Request (Delete (TaskItem 42))]"
proof -
  let ?evs = "[Mount,
       FetchSettled (Resolved \<lparr>task_id = 42, task_title = js ''X'', task_description = None,
                               task_isCompleted = False, task_createdAt = []\<rparr>),
       PressDelete]"
  let ?w = "fst (detail_run (detail_route 42) ?evs)"
  have es: "snd (detail_run (detail_route 42) ?evs)
      = [Request (Get (TaskItem 42)), Alert Onay DetailDeleteConfirm [cancelButton, silButton]]"
    and prompt: "dw_prompt ?w = [cancelButton, silButton]"
    by (simp_all add: detail_route_def detail_initial_def fetchTask_def requests_def
        fetchTask_settled_Resolved handleDeleteTask_def)
  from delete_needs_confirmation [of ?w 42 ?evs, OF refl] prompt
  have c: "snd (detail_step ?w (PressAlertButton 0)) = []"
    and d: "snd (detail_step ?w (PressAlertButton 1)) = [Request (Delete (TaskItem 42))]"
    by simp_all
  have app: "snd (detail_run (detail_route 42) (?evs @ [ev]))
      = snd (detail_run (detail_route 42) ?evs) @ snd (detail_step ?w ev)" for ev
    by (simp add: split_beta)
  from app [of "PressAlertButton 0"] app [of "PressAlertButton 1"] es c d
  show ?thesis by simp
qed

subsection \<open>One submission at a time\<close>

text \<open>
  C10. In every state the creation screen can reach there is at most one POST in
  flight, and there is one exactly when \<^verbatim>\<open>loading\<close> is set; a press of the save button
  then does nothing, and the response, resolved or rejected, clears the flag. The same
  holds on the detail screen for the full-field PUT, \<^verbatim>\<open>saving\<close> and the update button.
\<close>

theorem one_submission_in_flight:
  assumes "a = fst (add_run add_mount evs)"
    and "d = fst (detail_run (detail_route i) evs')"
  shows "aw_posting a \<le> 1
         \<and> (add_loading (aw_screen a) \<longleftrightarrow> aw_posting a = 1)
         \<and> (aw_posting a = 1 \<longrightarrow> add_step a AddPressSave = (a, []))
         \<and> dw_updating d \<le> 1
         \<and> (detail_saving (dw_screen d) \<longleftrightarrow> dw_updating d = 1)
         \<and> (dw_updating d = 1 \<longrightarrow> detail_step d PressUpdate = (d, []))
         \<and> (\<forall>r. aw_posting a = 1
               \<longrightarrow> \<not> add_loading (aw_screen (fst (add_step a (AddPostSettled r))))
                 \<and> aw_posting (fst (add_step a (AddPostSettled r))) = 0)
         \<and> (\<forall>r. dw_updating d = 1
               \<longrightarrow> \<not> detail_saving (dw_screen (fst (detail_step d (UpdateSettled r))))
                 \<and> dw_updating (fst (detail_step d (UpdateSettled r))) = 0)"
proof -
  have a: "add_inv a"
    unfolding assms by (rule add_inv_run) (rule add_inv_mount)
  have d: "detail_inv i d"
    unfolding assms by (rule detail_inv_run) (rule detail_inv_route)
  have a1: "aw_posting a \<le> 1" "add_loading (aw_screen a) \<longleftrightarrow> aw_posting a = 1"
    "aw_posting a = 1 \<Longrightarrow> add_step a AddPressSave = (a, [])"
    using a by (auto simp: add_inv_def split: if_splits)
  have d1: "dw_updating d \<le> 1" "detail_saving (dw_screen d) \<longleftrightarrow> dw_updating d = 1"
    "dw_updating d = 1 \<Longrightarrow> detail_step d PressUpdate = (d, [])"
    using d by (auto simp: detail_inv_def split: if_splits)
  have a2: "\<not> add_loading (aw_screen (fst (add_step a (AddPostSettled r))))
      \<and> aw_posting (fst (add_step a (AddPostSettled r))) = 0" if "aw_posting a = 1" for r
    using that
    by (cases r) (simp_all add: handleSaveTask_settled_Resolved handleSaveTask_settled_Rejected)
  have d2: "\<not> detail_saving (dw_screen (fst (detail_step d (UpdateSettled r))))
      \<and> dw_updating (fst (detail_step d (UpdateSettled r))) = 0" if "dw_updating d = 1" for r
    using that
    by (cases r)
      (simp_all add: handleUpdateTask_settled_Resolved handleUpdateTask_settled_Rejected)
  from a1 d1 a2 d2 show ?thesis by blast
qed

theorem one_submission_in_flight_witness:
  "snd (add_run add_mount [AddChangeTitle (js ''a''), AddPressSave, AddPressSave])
     = [Request (Post (Tasks [])
          \<lparr>body_title = Some (js ''a''), body_description = Some [], body_isCompleted = None\<rparr>)]
   \<and> snd (detail_run (detail_route 42)
      [Mount,
       FetchSettled (Resolved \<lparr>task_id = 42, task_title = js ''X'', task_description = None,
                               task_isCompleted = False, task_createdAt = []\<rparr>),
       PressUpdate, PressUpdate])
     = [Request (Get (TaskItem 42)),
        Request (Put (TaskItem 42)
          \<lparr>body_title = Some (js ''X''), body_description = Some [],
           body_isCompleted = Some False\<rparr>)]"
proof -
  let ?aevs = "[AddChangeTitle (js ''a''), AddPressSave]"
  let ?devs = "[Mount,
       FetchSettled (Resolved \<lparr>task_id = 42, task_title = js ''X'', task_description = None,
                               task_isCompleted = False, task_createdAt = []\<rparr>),
       PressUpdate]"
  let ?a = "fst (add_run add_mount ?aevs)"
  let ?d = "fst (detail_run (detail_route 42) ?devs)"
  have t: "trim (js ''a'') = js ''a''" "trim (js ''X'') = js ''X''" "trim [] = []"
    "js ''a'' \<noteq> []" "js ''X'' \<noteq> []"
    by (simp_all add: js_def trim_def isWhiteSpace_def)
  have a: "aw_posting ?a = 1"
    and aes: "snd (add_run add_mount ?aevs)
      = [Request (Post (Tasks [])
          \<lparr>body_title = Some (js ''a''), body_description = Some [], body_isCompleted = None\<rparr>)]"
    by (simp_all add: add_mount_def add_initial_def handleSaveTask_def requests_def t)
  have d: "dw_updating ?d = 1"
    and des: "snd (detail_run (detail_route 42) ?devs)
      = [Request (Get (TaskItem 42)),
         Request (Put (TaskItem 42)
          \<lparr>body_title = Some (js ''X''), body_description = Some [],
           body_isCompleted = Some False\<rparr>)]"
    by (simp_all add: detail_route_def detail_initial_def fetchTask_def requests_def
        fetchTask_settled_Resolved handleUpdateTask_def t)
  from one_submission_in_flight [of ?a ?aevs ?d 42 ?devs, OF refl refl] a d
  have again: "snd (add_step ?a AddPressSave) = []" "snd (detail_step ?d PressUpdate) = []"
    by simp_all
  have aapp: "snd (add_run add_mount (?aevs @ [ev]))
      = snd (add_run add_mount ?aevs) @ snd (add_step ?a ev)" for ev
    by (simp add: split_beta)
  have dapp: "snd (detail_run (detail_route 42) (?devs @ [ev]))
      = snd (detail_run (detail_route 42) ?devs) @ snd (detail_step ?d ev)" for ev
    by (simp add: split_beta)
  from aapp [of AddPressSave] dapp [of PressUpdate] aes des again
  show ?thesis by simp
qed

subsection \<open>The search debounce\<close>

lemma fire_state: "fst (fire xs s) = s"
  by (induction xs arbitrary: s) (simp_all add: fetchTasks_def split_beta)

lemma home_inv_mount: "home_inv home_mount"
  by (simp add: home_inv_def home_mount_def searchEffect_def setTimeout_def)

lemma home_inv_onChangeText: "home_inv s \<Longrightarrow> home_inv (onChangeText v s)"
  by (auto simp: home_inv_def onChangeText_def searchEffect_def searchEffect_cleanup_def
      setTimeout_def clearTimeout_def split: option.splits)

lemma home_inv_elapse: "home_inv s \<Longrightarrow> home_inv (fst (elapse d s))"
  by (simp add: home_inv_def elapse_def fire_state)

lemma fetchTasks_settled_cases:
  "fetchTasks_settled s (Resolved data) =
     Normal (s\<lparr>home_tasks := data, home_loading := False, home_refreshing := False\<rparr>) []"
  "fetchTasks_settled s (Rejected e) =
     Normal (s\<lparr>home_loading := False, home_refreshing := False\<rparr>)
       [ConsoleError ErrorFetchingTasks e]"
  by (simp_all add: fetchTasks_settled_def try_defs)

lemma handleToggleStatus_settled_cases:
  "handleToggleStatus_settled s i status (Resolved u) =
     Normal (s\<lparr>home_tasks :=
                 map (\<lambda>t. if task_id t = i then t\<lparr>task_isCompleted := status\<rparr> else t)
                   (home_tasks s)\<rparr>) []"
  "handleToggleStatus_settled s i status (Rejected e) =
     Normal s [ConsoleError ErrorUpdatingStatus e]"
  by (simp_all add: handleToggleStatus_settled_def try_defs)

lemma home_inv_step:
  assumes "home_inv (hw_screen w)"
  shows "home_inv (hw_screen (fst (home_step w ev)))"
proof (cases ev)
  case (Elapse d)
  with assms home_inv_elapse [of "hw_screen w" d] show ?thesis
    by (simp add: split_beta)
next
  case (ChangeText v)
  with assms show ?thesis by (simp add: home_inv_onChangeText)
next
  case (TasksSettled r)
  with assms show ?thesis
    by (cases r) (auto simp: home_inv_def fetchTasks_settled_cases)
next
  case (ToggleSettled n r)
  with assms show ?thesis
    by (cases r) (auto simp: home_inv_def handleToggleStatus_settled_cases split: prod.splits)
qed (use assms in \<open>auto simp: home_inv_def onFocus_def handleRefresh_def fetchTasks_def
    onToggle_def handleToggleStatus_def\<close>)

lemma home_inv_run:
  "home_inv (hw_screen w) \<Longrightarrow> home_inv (hw_screen (fst (home_run w evs)))"
proof (induction evs arbitrary: w)
  case Nil
  then show ?case by simp
next
  case (Cons ev evs)
  from Cons.prems have "home_inv (hw_screen (fst (home_step w ev)))" by (rule home_inv_step)
  then have "home_inv (hw_screen (fst (home_run (fst (home_step w ev)) evs)))" by (rule Cons.IH)
  then show ?case by (simp add: split_beta)
qed

text \<open>
  After a change the one pending timer is the new one, due 300 ms from now with the
  current text, and the cleanup holds its handle.
\<close>

lemma onChangeText_armed:
  assumes "home_inv s" and "v \<noteq> home_searchText s"
  shows "home_timers (onChangeText v s)
           = [\<lparr>timer_handle = home_nextHandle s, timer_due = home_now (onChangeText v s) + 300,
                timer_query = home_searchText (onChangeText v s)\<rparr>]
         \<and> home_handler (onChangeText v s) = Some (home_nextHandle s)
         \<and> home_searchText (onChangeText v s) = v"
proof -
  from assms(1) have "filter (\<lambda>x. timer_handle x \<noteq> h) (home_timers s) = []"
    if "home_handler s = Some h" for h
    using that by (auto simp: home_inv_def filter_empty_conv)
  moreover from assms(1) have "home_timers s = []" if "home_handler s = None"
    using that by (cases "home_timers s") (auto simp: home_inv_def)
  ultimately show ?thesis using assms(2)
    by (cases "home_handler s")
      (simp_all add: onChangeText_def searchEffect_def searchEffect_cleanup_def
        setTimeout_def clearTimeout_def)
qed

lemma elapse_before_due:
  assumes "home_timers s = [\<lparr>timer_handle = h, timer_due = home_now s + 300, timer_query = q\<rparr>]"
    and "d < 300"
  shows "elapse d s = (s\<lparr>home_now := home_now s + d\<rparr>, [])"
  using assms by (simp add: elapse_def)

lemma elapse_after_due:
  assumes "home_timers s = [\<lparr>timer_handle = h, timer_due = home_now s + 300, timer_query = q\<rparr>]"
    and "300 \<le> d"
  shows "elapse d s = (s\<lparr>home_timers := [], home_now := home_now s + d\<rparr>,
                      [Request (Get (Tasks (if q \<noteq> [] then js ''?search='' @ q else [])))])"
  using assms by (simp add: elapse_def fetchTasks_def)

lemma elapse_idle: "home_timers s = [] \<Longrightarrow> snd (elapse d s) = []"
  by (simp add: elapse_def)

lemma changes_quiet:
  assumes "home_timers s
             = [\<lparr>timer_handle = h, timer_due = home_now s + 300,
                  timer_query = home_searchText s\<rparr>]"
    and "home_handler s = Some h"
    and "differs (home_searchText s) (map snd cs)"
    and "\<forall>(d, v) \<in> set cs. d < 300"
  shows "snd (changes s cs) = []
         \<and> (\<exists>h'. home_timers (fst (changes s cs))
                   = [\<lparr>timer_handle = h', timer_due = home_now (fst (changes s cs)) + 300,
                        timer_query = last (home_searchText s # map snd cs)\<rparr>])"
  using assms
proof (induction cs arbitrary: s h)
  case Nil
  then show ?case by simp
next
  case (Cons c cs)
  obtain d v where c: "c = (d, v)" by (cases c)
  from Cons.prems c have d: "d < 300" and v: "v \<noteq> home_searchText s"
    and rest: "differs v (map snd cs)" "\<forall>(d, v) \<in> set cs. d < 300"
    by simp_all
  let ?s1 = "s\<lparr>home_now := home_now s + d\<rparr>"
  let ?s2 = "onChangeText v ?s1"
  from Cons.prems(1) d have e: "elapse d s = (?s1, [])"
    by (rule elapse_before_due)
  from Cons.prems(1,2) have inv: "home_inv ?s1"
    by (simp add: home_inv_def)
  from v have "v \<noteq> home_searchText ?s1" by simp
  from onChangeText_armed [OF inv this]
  have armed: "home_timers ?s2
        = [\<lparr>timer_handle = home_nextHandle ?s1, timer_due = home_now ?s2 + 300,
             timer_query = home_searchText ?s2\<rparr>]"
    and held: "home_handler ?s2 = Some (home_nextHandle ?s1)"
    and cur: "home_searchText ?s2 = v"
    by simp_all
  from rest cur have "differs (home_searchText ?s2) (map snd cs)" by simp
  from Cons.IH [OF armed held this rest(2)] cur c e
  show ?case by (simp add: split_beta)
qed

text \<open>
  Running the body of the effect again without its cleanup leaves the earlier timer
  pending, and both fire.
\<close>

lemma setTimeout_keeps_pending_timers:
  "snd (elapse 300
      (searchEffect ((onChangeText (js ''a'') home_mount)\<lparr>home_searchText := js ''ab''\<rparr>)))
     = [Request (Get (Tasks (js ''?search=a''))), Request (Get (Tasks (js ''?search=ab'')))]"
  by (simp add: elapse_def fetchTasks_def onChangeText_def searchEffect_def
      searchEffect_cleanup_def setTimeout_def clearTimeout_def home_mount_def js_def)

text \<open>
  C3. Take any state the list screen can reach, a change of the search text, and further
  changes, each less than 300 ms after the one before it and each to a text other than
  the one before it. No fetch fires during the run, nor in the 300 ms after the last
  change; once those 300 ms have passed exactly one fetch has fired, with the last text,
  and nothing is left pending: the timer of every earlier change, and the one that was
  pending before the run, has been cleared. The witness is the run "a", "ab", "abc",
  50 ms apart, started 100 ms after the screen was mounted.
\<close>

theorem search_debounce_trailing_edge:
  assumes "s = hw_screen (fst (home_run home_start evs))"
    and "v \<noteq> home_searchText s"
    and "differs v (map snd cs)"
    and "\<forall>(d, v') \<in> set cs. d < 300"
    and "s' = fst (changes (onChangeText v s) cs)"
  shows "snd (changes (onChangeText v s) cs) = []
         \<and> (\<forall>d < 300. snd (elapse d s') = [])
         \<and> (\<forall>d \<ge> 300. snd (elapse d s')
               = snd (fetchTasks s' (last (v # map snd cs)))
             \<and> (\<forall>d'. snd (elapse d' (fst (elapse d s'))) = []))
         \<and> snd (fetchTasks s' (last (v # map snd cs)))
             = [Request (Get (Tasks (if last (v # map snd cs) \<noteq> []
                                     then js ''?search='' @ last (v # map snd cs) else [])))]"
proof -
  let ?s0 = "onChangeText v s"
  let ?q = "last (v # map snd cs)"
  have inv: "home_inv s"
    unfolding assms(1) by (rule home_inv_run) (simp add: home_start_def home_inv_mount)
  from onChangeText_armed [OF inv assms(2)]
  have armed: "home_timers ?s0
        = [\<lparr>timer_handle = home_nextHandle s, timer_due = home_now ?s0 + 300,
             timer_query = home_searchText ?s0\<rparr>]"
    and held: "home_handler ?s0 = Some (home_nextHandle s)"
    and cur: "home_searchText ?s0 = v"
    by simp_all
  from assms(3) cur have "differs (home_searchText ?s0) (map snd cs)" by simp
  from changes_quiet [OF armed held this assms(4)] cur assms(5)
  obtain h' where quiet: "snd (changes ?s0 cs) = []"
    and timer: "home_timers s'
        = [\<lparr>timer_handle = h', timer_due = home_now s' + 300, timer_query = ?q\<rparr>]"
    by auto
  have req: "snd (fetchTasks s' ?q)
      = [Request (Get (Tasks (if ?q \<noteq> [] then js ''?search='' @ ?q else [])))]"
    by (simp add: fetchTasks_def)
  have early: "snd (elapse d s') = []" if "d < 300" for d
    using elapse_before_due [OF timer that] by simp
  have late: "snd (elapse d s') = snd (fetchTasks s' ?q)
      \<and> (\<forall>d'. snd (elapse d' (fst (elapse d s'))) = [])" if "300 \<le> d" for d
    using elapse_after_due [OF timer that] req by (simp add: elapse_idle)
  from quiet early late req show ?thesis by blast
qed

theorem search_debounce_trailing_edge_witness:
  "snd (changes (onChangeText (js ''a'') (hw_screen (fst (home_run home_start [Elapse 100]))))
          [(50, js ''ab''), (50, js ''abc'')]) = []
   \<and> snd (elapse 299 (fst (changes
          (onChangeText (js ''a'') (hw_screen (fst (home_run home_start [Elapse 100]))))
          [(50, js ''ab''), (50, js ''abc'')]))) = []
   \<and> snd (elapse 300 (fst (changes
          (onChangeText (js ''a'') (hw_screen (fst (home_run home_start [Elapse 100]))))
          [(50, js ''ab''), (50, js ''abc'')])))
       = [Request (Get (Tasks (js ''?search=abc'')))]"
proof -
  let ?s = "hw_screen (fst (home_run home_start [Elapse 100]))"
  let ?cs = "[(50, js ''ab''), (50, js ''abc'')]"
  have v: "js ''a'' \<noteq> home_searchText ?s"
    by (simp add: home_start_def home_mount_def searchEffect_def setTimeout_def elapse_def
        js_def split_beta fire_state)
  have dif: "differs (js ''a'') (map snd ?cs)"
    by (simp add: js_def)
  have gaps: "\<forall>(d, v') \<in> set ?cs. d < (300::nat)"
    by simp
  have q: "last (js ''a'' # map snd ?cs) = js ''abc''" "js ''abc'' \<noteq> []"
    "js ''?search='' @ js ''abc'' = js ''?search=abc''"
    by (simp_all add: js_def)
  from search_debounce_trailing_edge [OF refl v dif gaps refl] q
  show ?thesis by simp
qed

end
